theory Spec2Isabelle
  imports Complex_Main "HOL-Library.Sublist"
begin

section \<open>EchoSense: the rule-based sentiment analysis service\<close>

text \<open>
  A shallow embedding of \<^verbatim>\<open>echosense-backend/services/sentimentAnalysis.js\<close>
  (class \<^verbatim>\<open>SentimentAnalysisService\<close>).

  Conventions of the embedding:
  \<^item> a JavaScript value that reaches a method is a \<open>jsval\<close>; a method that
    dereferences its argument (\<^verbatim>\<open>text.split\<close>, \<^verbatim>\<open>text.toLowerCase\<close>) raises
    \<open>TypeError\<close> on a value without that method, which the model returns as \<open>Inl\<close>;
  \<^item> a string is a list of code units; the model covers the code units 0 to 255
    (\<open>char\<close>), where \<^verbatim>\<open>\w\<close> is \<^verbatim>\<open>[A-Za-z0-9_]\<close> and \<^verbatim>\<open>\s\<close> is tab, line feed,
    vertical tab, form feed, carriage return, space and no-break space;
  \<^item> a number is an exact real: the code's arithmetic is carried out without the
    rounding of IEEE doubles, and \<^verbatim>\<open>toFixed(3)\<close> rounds to the nearest multiple of
    1/1000, the larger one on a tie;
  \<^item> \<^verbatim>\<open>async\<close> methods are modelled by the value their promise resolves to.
\<close>

subsection \<open>Values, errors and the service object\<close>

datatype jsval =
    JUndefined
  | JNull
  | JBool bool
  | JNum real
  | JStr string
  | JArr "jsval list"
  | JObj

datatype error = TypeError

datatype label = POSITIVE | NEGATIVE | NEUTRAL

record service =
  isInitialized :: bool
  batchSize :: int

text \<open>
  The constructor: \<^verbatim>\<open>this.batchSize = parseInt(process.env.BATCH_SIZE) || 32\<close>, then
  \<^verbatim>\<open>initialize()\<close>, which fills the three lexicons and sets \<^verbatim>\<open>isInitialized\<close>.
  The argument is the result of \<^verbatim>\<open>parseInt\<close>: \<open>None\<close> for NaN.
\<close>

definition constructor :: "int option \<Rightarrow> service" where
  "constructor parsed =
     \<lparr> isInitialized = True,
       batchSize = (case parsed of None \<Rightarrow> 32 | Some n \<Rightarrow> if n = 0 then 32 else n) \<rparr>"

definition positiveKeywords :: "string list" where
  "positiveKeywords =
     [''excellent'', ''amazing'', ''great'', ''fantastic'', ''wonderful'', ''awesome'', ''love'',
      ''perfect'', ''outstanding'', ''brilliant'', ''superb'', ''magnificent'', ''incredible'',
      ''remarkable'', ''innovation'', ''revolutionary'', ''breakthrough'', ''cutting-edge'',
      ''advanced'', ''efficient'', ''sustainable'', ''eco-friendly'', ''green'', ''clean'',
      ''renewable'', ''future'']"

definition negativeKeywords :: "string list" where
  "negativeKeywords =
     [''terrible'', ''awful'', ''horrible'', ''bad'', ''worst'', ''hate'', ''disgusting'',
      ''pathetic'', ''disappointing'', ''frustrating'', ''annoying'', ''useless'', ''broken'',
      ''failed'', ''expensive'', ''overpriced'', ''costly'', ''waste'', ''scam'', ''fraud'',
      ''problem'', ''issue'', ''bug'', ''error'', ''crash'', ''slow'', ''delayed'', ''cancelled'']"

definition neutralKeywords :: "string list" where
  "neutralKeywords =
     [''okay'', ''fine'', ''average'', ''normal'', ''standard'', ''typical'', ''regular'',
      ''moderate'', ''acceptable'', ''decent'', ''fair'', ''reasonable'']"

subsection \<open>String primitives\<close>

definition isWordChar :: "char \<Rightarrow> bool" where
  "isWordChar c =
     (let n = (of_char c :: nat)
      in (48 \<le> n \<and> n \<le> 57) \<or> (65 \<le> n \<and> n \<le> 90) \<or> n = 95 \<or> (97 \<le> n \<and> n \<le> 122))"

definition isSpaceChar :: "char \<Rightarrow> bool" where
  "isSpaceChar c = (let n = (of_char c :: nat) in (9 \<le> n \<and> n \<le> 13) \<or> n = 32 \<or> n = 160)"

definition lowerChar :: "char \<Rightarrow> char" where
  "lowerChar c =
     (let n = (of_char c :: nat)
      in if (65 \<le> n \<and> n \<le> 90) \<or> (192 \<le> n \<and> n \<le> 222 \<and> n \<noteq> 215)
         then char_of (n + 32) else c)"

definition toLowerCase :: "string \<Rightarrow> string" where
  "toLowerCase s = map lowerChar s"

text \<open>\<^verbatim>\<open>.replace(/[^\w\s]/g, ' ')\<close>\<close>

definition removePunctuation :: "string \<Rightarrow> string" where
  "removePunctuation s = map (\<lambda>c. if isWordChar c \<or> isSpaceChar c then c else CHR '' '') s"

text \<open>\<^verbatim>\<open>.replace(/\s+/g, ' ')\<close>: every maximal run of white space becomes one space.\<close>

function normalizeWhitespace :: "string \<Rightarrow> string" where
  "normalizeWhitespace [] = []"
| "normalizeWhitespace (c # cs) =
     (if isSpaceChar c then CHR '' '' # normalizeWhitespace (dropWhile isSpaceChar cs)
      else c # normalizeWhitespace cs)"
  by pat_completeness auto
termination
  by (relation "measure length") (auto simp: less_Suc_eq_le length_dropWhile_le)

definition trim :: "string \<Rightarrow> string" where
  "trim s = rev (dropWhile isSpaceChar (rev (dropWhile isSpaceChar s)))"

text \<open>\<^verbatim>\<open>s.split(' ')\<close>: the pieces between single spaces; the empty string gives \<open>['''']\<close>.\<close>

fun split :: "string \<Rightarrow> string list" where
  "split [] = [[]]"
| "split (c # cs) =
     (if c = CHR '' '' then [] # split cs
      else (case split cs of [] \<Rightarrow> [[c]] | w # ws \<Rightarrow> (c # w) # ws))"

text \<open>\<^verbatim>\<open>s.includes(w)\<close>: \<open>w\<close> occurs in \<open>s\<close> as a contiguous substring.\<close>

fun "includes" :: "string \<Rightarrow> string \<Rightarrow> bool" where
  "includes [] w = (w = [])"
| "includes (c # cs) w = (prefix w (c # cs) \<or> includes cs w)"

subsection \<open>preprocessText\<close>

text \<open>
  \<^verbatim>\<open>if (!text || typeof text !== 'string') return ''\<close>; otherwise lower-case, replace
  punctuation by spaces, normalise white space, trim.
\<close>

definition preprocessText :: "jsval \<Rightarrow> string" where
  "preprocessText text =
     (case text of
        JStr s \<Rightarrow> if s = [] then [] else trim (normalizeWhitespace (removePunctuation (toLowerCase s)))
      | _ \<Rightarrow> [])"

subsection \<open>applyContextModifiers\<close>

definition negationWords :: "string list" where
  "negationWords =
     [''not'', ''no'', ''never'', ''none'', ''nothing'', ''nowhere'', ''neither'', ''nobody'']"

definition intensifiers :: "string list" where
  "intensifiers =
     [''very'', ''extremely'', ''incredibly'', ''absolutely'', ''completely'', ''totally'']"

definition hasNegation :: "string \<Rightarrow> bool" where
  "hasNegation text = list_ex (\<lambda>word. includes text word) negationWords"

definition hasIntensifier :: "string \<Rightarrow> bool" where
  "hasIntensifier text = list_ex (\<lambda>word. includes text word) intensifiers"

definition exclamationCount :: "string \<Rightarrow> nat" where
  "exclamationCount text = length (filter (\<lambda>c. c = CHR ''!'') text)"

text \<open>The four steps of \<^verbatim>\<open>applyContextModifiers\<close>, in the order of the source.\<close>

definition negationModifier :: "string \<Rightarrow> real \<Rightarrow> real" where
  "negationModifier text modifiedScore =
     (if hasNegation text then 1 - modifiedScore else modifiedScore)"

definition intensifierModifier :: "string \<Rightarrow> real \<Rightarrow> real" where
  "intensifierModifier text modifiedScore =
     (if hasIntensifier text
      then (if modifiedScore > 1/2 then min 1 (modifiedScore * (12/10))
            else max 0 (modifiedScore * (8/10)))
      else modifiedScore)"

definition questionModifier :: "string \<Rightarrow> real \<Rightarrow> real" where
  "questionModifier text modifiedScore =
     (if includes text ''?'' then (modifiedScore + 1/2) / 2 else modifiedScore)"

definition exclamationModifier :: "string \<Rightarrow> real \<Rightarrow> real" where
  "exclamationModifier text modifiedScore =
     (if exclamationCount text > 0
      then (let intensity = min (2/10) (of_nat (exclamationCount text) * (1/10))
            in if modifiedScore > 1/2 then min 1 (modifiedScore + intensity)
               else max 0 (modifiedScore - intensity))
      else modifiedScore)"

definition applyContextModifiers :: "string \<Rightarrow> real \<Rightarrow> real" where
  "applyContextModifiers text baseScore =
     exclamationModifier text
       (questionModifier text
         (intensifierModifier text
           (negationModifier text baseScore)))"

subsection \<open>calculateSentimentScore\<close>

datatype kwtype = positive | negative | neutral

record counts =
  positiveScore :: real
  negativeScore :: real
  neutralScore :: real
  foundKeywords :: "(string \<times> kwtype) list"

text \<open>The body of \<^verbatim>\<open>words.forEach\<close>: the first lexicon that has the word counts it.\<close>

definition countWord :: "counts \<Rightarrow> string \<Rightarrow> counts" where
  "countWord c word =
     (if word \<in> set positiveKeywords
      then c\<lparr>positiveScore := positiveScore c + 1,
             foundKeywords := foundKeywords c @ [(word, positive)]\<rparr>
      else if word \<in> set negativeKeywords
      then c\<lparr>negativeScore := negativeScore c + 1,
             foundKeywords := foundKeywords c @ [(word, negative)]\<rparr>
      else if word \<in> set neutralKeywords
      then c\<lparr>neutralScore := neutralScore c + 1/2,
             foundKeywords := foundKeywords c @ [(word, neutral)]\<rparr>
      else c)"

definition wordsOf :: "string \<Rightarrow> string list" where
  "wordsOf text = filter (\<lambda>word. length word > 2) (split text)"

definition countKeywords :: "string \<Rightarrow> counts" where
  "countKeywords text =
     foldl countWord
       \<lparr>positiveScore = 0, negativeScore = 0, neutralScore = 0, foundKeywords = []\<rparr>
       (wordsOf text)"

definition totalScore :: "string \<Rightarrow> real" where
  "totalScore text =
     (let c = countKeywords text in positiveScore c + negativeScore c + neutralScore c)"

text \<open>The score of lines 118 to 134, before the context modifiers.\<close>

definition baseScore :: "string \<Rightarrow> real" where
  "baseScore text =
     (let c = countKeywords text
      in if totalScore text = 0 then 1/2
         else (let positiveWeight = positiveScore c / totalScore text;
                   negativeWeight = negativeScore c / totalScore text
               in positiveWeight * (8/10) + negativeWeight * (2/10) + 1/10))"

definition baseConfidence :: "string \<Rightarrow> real" where
  "baseConfidence text =
     (if totalScore text = 0 then 3/10
      else min (95/100) (max (4/10) (totalScore text / of_nat (length (wordsOf text)) * 2)))"

text \<open>The score after the modifiers and the clamp of line 140; the label is taken from it.\<close>

definition finalScore :: "string \<Rightarrow> real" where
  "finalScore text = max 0 (min 1 (applyContextModifiers text (baseScore text)))"

definition labelOf :: "real \<Rightarrow> label" where
  "labelOf sentimentScore =
     (if sentimentScore \<ge> 6/10 then POSITIVE
      else if sentimentScore \<le> 4/10 then NEGATIVE
      else NEUTRAL)"

text \<open>\<^verbatim>\<open>parseFloat(x.toFixed(3))\<close>\<close>

definition toFixed3 :: "real \<Rightarrow> real" where
  "toFixed3 x = of_int \<lfloor>x * 1000 + 1/2\<rfloor> / 1000"

record score_result =
  score :: real
  label :: label
  confidence :: real
  "keywords" :: "string list"

definition calculateSentimentScore :: "string \<Rightarrow> score_result" where
  "calculateSentimentScore text =
     \<lparr> score = toFixed3 (finalScore text),
       label = labelOf (finalScore text),
       confidence = toFixed3 (baseConfidence text),
       keywords = map fst (foundKeywords (countKeywords text)) \<rparr>"

text \<open>
  The method as a caller reaches it: \<^verbatim>\<open>text.split(' ')\<close> is the first thing it does,
  and only a string has \<^verbatim>\<open>split\<close>.
\<close>

definition calculateSentimentScoreOf :: "jsval \<Rightarrow> error + score_result" where
  "calculateSentimentScoreOf text =
     (case text of JStr s \<Rightarrow> Inr (calculateSentimentScore s) | _ \<Rightarrow> Inl TypeError)"

subsection \<open>analyzeSentiment and analyzeBatch\<close>

record sentiment =
  sentiment_score :: real
  sentiment_label :: label
  confidence :: real
  "keywords" :: "string list"

definition getDefaultSentiment :: sentiment where
  "getDefaultSentiment =
     \<lparr> sentiment_score = 1/2, sentiment_label = NEUTRAL, confidence = 3/10, keywords = [] \<rparr>"

text \<open>
  \<^verbatim>\<open>try { ... } catch (error) { return this.getDefaultSentiment() }\<close>: an error of
  the body is the \<open>Inl\<close> branch.
\<close>

definition analyzeSentiment :: "service \<Rightarrow> jsval \<Rightarrow> sentiment" where
  "analyzeSentiment svc text =
     (if \<not> isInitialized svc then getDefaultSentiment
      else (let cleanText = preprocessText text
            in case calculateSentimentScoreOf (JStr cleanText) of
                 Inr s \<Rightarrow>
                   \<lparr> sentiment_score = score s,
                     sentiment_label = label s,
                     confidence = score_result.confidence s,
                     keywords = score_result.keywords s \<rparr>
               | Inl e \<Rightarrow> getDefaultSentiment))"

text \<open>
  \<^verbatim>\<open>xs.slice(start, end)\<close> with integer arguments: a negative index counts from the
  end of the array.
\<close>

definition slice :: "'a list \<Rightarrow> int \<Rightarrow> int \<Rightarrow> 'a list" where
  "slice xs start fin =
     (let len = int (length xs);
          k = (if start < 0 then max (len + start) 0 else min start len);
          final = (if fin < 0 then max (len + fin) 0 else min fin len)
      in take (nat (final - k)) (drop (nat k) xs))"

text \<open>
  The loop \<^verbatim>\<open>for (let i = 0; i < texts.length; i += batchSize)\<close>. \<^verbatim>\<open>Promise.all\<close>
  keeps the order of the batch. A loop that does not end is \<open>None\<close>.
\<close>

partial_function (option) analyzeBatchLoop ::
  "service \<Rightarrow> jsval list \<Rightarrow> int \<Rightarrow> sentiment list \<Rightarrow> sentiment list option" where
  "analyzeBatchLoop svc texts i results =
     (if i < int (length texts)
      then (let batch = slice texts i (i + batchSize svc);
                batchResults = map (analyzeSentiment svc) batch
            in analyzeBatchLoop svc texts (i + batchSize svc) (results @ batchResults))
      else Some results)"

definition analyzeBatch :: "service \<Rightarrow> jsval \<Rightarrow> sentiment list option" where
  "analyzeBatch svc texts =
     (case texts of JArr ts \<Rightarrow> analyzeBatchLoop svc ts 0 [] | _ \<Rightarrow> Some [])"

subsection \<open>extractBrandMentions\<close>

text \<open>
  \<^verbatim>\<open>brands.forEach\<close>: \<^verbatim>\<open>brand.toLowerCase()\<close> raises on a brand that is no string
  and ends the loop.
\<close>

fun collectMentions :: "string \<Rightarrow> jsval list \<Rightarrow> jsval list \<Rightarrow> error + jsval list" where
  "collectMentions cleanText [] mentions = Inr mentions"
| "collectMentions cleanText (brand # brands) mentions =
     (case brand of
        JStr b \<Rightarrow>
          collectMentions cleanText brands
            (if includes cleanText (toLowerCase b) then mentions @ [brand] else mentions)
      | _ \<Rightarrow> Inl TypeError)"

definition extractBrandMentions :: "jsval \<Rightarrow> jsval \<Rightarrow> error + jsval list" where
  "extractBrandMentions text brands =
     (case brands of
        JArr bs \<Rightarrow>
          (case text of
             JStr s \<Rightarrow> collectMentions (toLowerCase s) bs []
           | _ \<Rightarrow> Inl TypeError)
      | _ \<Rightarrow> Inr [])"

subsection \<open>Sorting with a comparator\<close>

text \<open>
  \<^verbatim>\<open>Array.prototype.sort(compare)\<close> is stable: of two elements that compare equal the
  earlier one stays first. The model is the stable insertion sort. The comparator returns
  a number whose sign decides; NaN counts as 0.
\<close>

fun insertBy :: "('a \<Rightarrow> 'a \<Rightarrow> int) \<Rightarrow> 'a \<Rightarrow> 'a list \<Rightarrow> 'a list" where
  "insertBy compare x [] = [x]"
| "insertBy compare x (y # ys) =
     (if compare x y > 0 then y # insertBy compare x ys else x # y # ys)"

definition sortBy :: "('a \<Rightarrow> 'a \<Rightarrow> int) \<Rightarrow> 'a list \<Rightarrow> 'a list" where
  "sortBy compare xs = foldr (insertBy compare) xs []"

subsection \<open>extractKeywords\<close>

text \<open>
  \<^verbatim>\<open>wordFreq\<close> is a plain object used as a dictionary. Its own properties are kept
  in creation order. A value is a number or, once \<^verbatim>\<open>+ 1\<close> has met a value that is
  no number, a string.
\<close>

datatype freq = Count nat | Text string

type_synonym wordFreq = "(string \<times> freq) list"

text \<open>
  A key that \<^verbatim>\<open>wordFreq\<close> does not own is looked up in \<^verbatim>\<open>Object.prototype\<close>. The
  result is the string that the inherited value becomes under \<^verbatim>\<open>+ 1\<close>.
\<close>

definition prototypeMethods :: "string list" where
  "prototypeMethods =
     [''__defineGetter__'', ''__defineSetter__'', ''hasOwnProperty'', ''__lookupGetter__'',
      ''__lookupSetter__'', ''isPrototypeOf'', ''propertyIsEnumerable'', ''toString'',
      ''valueOf'', ''toLocaleString'']"

definition inherited :: "string \<Rightarrow> string option" where
  "inherited key =
     (if key = ''constructor'' then Some ''function Object() { [native code] }''
      else if key = ''__proto__'' then Some ''[object Object]''
      else if key \<in> set prototypeMethods
      then Some (''function '' @ key @ ''() { [native code] }'')
      else None)"

fun setOwn :: "string \<Rightarrow> freq \<Rightarrow> wordFreq \<Rightarrow> wordFreq" where
  "setOwn key v [] = [(key, v)]"
| "setOwn key v ((k, w) # rest) =
     (if key = k then (key, v) # rest else (k, w) # setOwn key v rest)"

text \<open>
  \<^verbatim>\<open>wordFreq[word] = (wordFreq[word] || 0) + 1\<close> for a word longer than 3. Assigning
  a string to \<^verbatim>\<open>__proto__\<close> has no effect.
\<close>

definition countFreq :: "wordFreq \<Rightarrow> string \<Rightarrow> wordFreq" where
  "countFreq wordFreq word =
     (if length word > 3
      then (let old = (case map_of wordFreq word of
                         Some v \<Rightarrow> Some v
                       | None \<Rightarrow> map_option Text (inherited word));
                new = (case old of
                         None \<Rightarrow> Count 1
                       | Some (Count n) \<Rightarrow> Count (n + 1)
                       | Some (Text s) \<Rightarrow> if s = [] then Count 1 else Text (s @ ''1''))
            in if word = ''__proto__'' then wordFreq else setOwn word new wordFreq)
      else wordFreq)"

text \<open>
  \<^verbatim>\<open>Object.entries\<close>: the keys that are array indices (canonical decimal numerals
  below \<open>2^32 - 1\<close>) come first, in ascending order, then the other keys in creation order.
\<close>

definition isDigit :: "char \<Rightarrow> bool" where
  "isDigit c = (let n = (of_char c :: nat) in 48 \<le> n \<and> n \<le> 57)"

definition decimalValue :: "string \<Rightarrow> int" where
  "decimalValue k = foldl (\<lambda>n c. 10 * n + (of_char c - 48)) 0 k"

definition isArrayIndex :: "string \<Rightarrow> bool" where
  "isArrayIndex k =
     (k \<noteq> [] \<and> list_all isDigit k \<and> (length k = 1 \<or> hd k \<noteq> CHR ''0'')
      \<and> decimalValue k < 4294967295)"

definition entries :: "(string \<times> 'v) list \<Rightarrow> (string \<times> 'v) list" where
  "entries obj =
     sort_key (\<lambda>(k, v). decimalValue k) (filter (\<lambda>(k, v). isArrayIndex k) obj)
     @ filter (\<lambda>(k, v). \<not> isArrayIndex k) obj"

text \<open>The comparator \<^verbatim>\<open>([,a], [,b]) => b - a\<close>; a string operand makes it NaN.\<close>

definition compareFreq :: "string \<times> freq \<Rightarrow> string \<times> freq \<Rightarrow> int" where
  "compareFreq x y =
     (case (snd x, snd y) of (Count a, Count b) \<Rightarrow> int b - int a | _ \<Rightarrow> 0)"

definition wordFrequencies :: "jsval \<Rightarrow> wordFreq" where
  "wordFrequencies text = foldl countFreq [] (split (preprocessText text))"

definition extractKeywords :: "jsval \<Rightarrow> int \<Rightarrow> string list" where
  "extractKeywords text maxKeywords =
     map fst (slice (sortBy compareFreq (entries (wordFrequencies text))) 0 maxKeywords)"

subsection \<open>getEmotionAnalysis\<close>

definition emotions :: "(string \<times> string list) list" where
  "emotions =
     [(''joy'', [''happy'', ''excited'', ''thrilled'', ''delighted'', ''pleased'', ''satisfied'']),
      (''anger'', [''angry'', ''furious'', ''mad'', ''irritated'', ''annoyed'', ''frustrated'']),
      (''fear'', [''scared'', ''afraid'', ''worried'', ''anxious'', ''concerned'', ''nervous'']),
      (''sadness'', [''sad'', ''disappointed'', ''upset'', ''depressed'', ''unhappy'']),
      (''surprise'', [''surprised'', ''shocked'', ''amazed'', ''astonished'', ''stunned'']),
      (''trust'', [''trust'', ''confident'', ''reliable'', ''dependable'', ''secure''])]"

record emotion_result =
  dominant_emotion :: string
  emotion_scores :: "(string \<times> nat) list"

definition emotionScores :: "string \<Rightarrow> (string \<times> nat) list" where
  "emotionScores cleanText =
     map (\<lambda>(emotion, kws).
            (emotion, length (filter (\<lambda>keyword. includes cleanText keyword) kws)))
         (entries emotions)"

text \<open>The comparator \<^verbatim>\<open>([,a], [,b]) => b - a\<close> on the match counts.\<close>

definition compareCount :: "string \<times> nat \<Rightarrow> string \<times> nat \<Rightarrow> int" where
  "compareCount x y = int (snd y) - int (snd x)"

text \<open>
  \<^verbatim>\<open>dominantEmotion\<close> is element 0 of the sorted entries; reading \<^verbatim>\<open>[1]\<close> of
  \<^verbatim>\<open>undefined\<close> would raise.
\<close>

definition getEmotionAnalysis :: "jsval \<Rightarrow> error + emotion_result" where
  "getEmotionAnalysis text =
     (let cleanText = preprocessText text;
          scores = emotionScores cleanText
      in case sortBy compareCount (entries scores) of
           [] \<Rightarrow> Inl TypeError
         | dominantEmotion # _ \<Rightarrow>
             Inr \<lparr> dominant_emotion =
                     (if snd dominantEmotion > 0 then fst dominantEmotion else ''neutral''),
                   emotion_scores = scores \<rparr>)"

section \<open>Properties\<close>

subsection \<open>Rounding to three decimals\<close>




lemma toFixed3_values:
  "toFixed3 0 = 0" "toFixed3 1 = 1" "toFixed3 (3/10) = 3/10" "toFixed3 (4/10) = 4/10"
  "toFixed3 (1/2) = 1/2" "toFixed3 (6/10) = 6/10" "toFixed3 (95/100) = 95/100"
  by (simp_all add: toFixed3_def)

subsection \<open>The keyword counts\<close>

lemma positiveScore_foldl:
  "positiveScore (foldl countWord c ws) =
     positiveScore c + of_nat (length (filter (\<lambda>w. w \<in> set positiveKeywords) ws))"
  by (induction ws arbitrary: c) (simp_all add: countWord_def)

lemma negativeScore_foldl:
  "negativeScore (foldl countWord c ws) =
     negativeScore c
     + of_nat (length (filter (\<lambda>w. w \<notin> set positiveKeywords \<and> w \<in> set negativeKeywords) ws))"
  by (induction ws arbitrary: c) (simp_all add: countWord_def)

lemma neutralScore_foldl:
  "neutralScore (foldl countWord c ws) =
     neutralScore c
     + of_nat (length (filter (\<lambda>w. w \<notin> set positiveKeywords \<and> w \<notin> set negativeKeywords
                                    \<and> w \<in> set neutralKeywords) ws)) / 2"
  by (induction ws arbitrary: c) (simp_all add: countWord_def)


lemma totalScore_zero_iff:
  "totalScore t = 0 \<longleftrightarrow>
     (\<forall>w \<in> set (wordsOf t). w \<notin> set positiveKeywords \<and> w \<notin> set negativeKeywords
                              \<and> w \<notin> set neutralKeywords)"
proof -
  let ?p = "length (filter (\<lambda>w. w \<in> set positiveKeywords) (wordsOf t))"
  let ?n = "length (filter (\<lambda>w. w \<notin> set positiveKeywords \<and> w \<in> set negativeKeywords) (wordsOf t))"
  let ?u = "length (filter (\<lambda>w. w \<notin> set positiveKeywords \<and> w \<notin> set negativeKeywords
                                    \<and> w \<in> set neutralKeywords) (wordsOf t))"
  have "totalScore t = real ?p + real ?n + real ?u / 2"
    by (simp add: totalScore_def countKeywords_def positiveScore_foldl negativeScore_foldl
        neutralScore_foldl Let_def)
  moreover have "real ?p + real ?n + real ?u / 2 = 0 \<longleftrightarrow> ?p = 0 \<and> ?n = 0 \<and> ?u = 0"
    by (smt (verit) of_nat_0_le_iff of_nat_eq_0_iff divide_nonneg_nonneg divide_eq_0_iff)
  ultimately show ?thesis
    by (auto simp: filter_empty_conv)
qed




subsection \<open>Score, confidence and label of a result\<close>




lemma calc_string: "calculateSentimentScoreOf (JStr s) = Inr (calculateSentimentScore s)"
  by (simp add: calculateSentimentScoreOf_def)

lemma analyzeSentiment_eq:
  "analyzeSentiment svc v =
     (if isInitialized svc
      then (let s = calculateSentimentScore (preprocessText v)
            in \<lparr> sentiment_score = score s, sentiment_label = label s,
                 confidence = score_result.confidence s, keywords = score_result.keywords s \<rparr>)
      else getDefaultSentiment)"
  by (simp add: analyzeSentiment_def calc_string Let_def)





subsection \<open>Texts without a lexicon match\<close>

lemma applyContextModifiers_half:
  "\<not> hasIntensifier t \<Longrightarrow> exclamationCount t = 0 \<Longrightarrow> applyContextModifiers t (1/2) = 1/2"
  by (simp add: applyContextModifiers_def negationModifier_def intensifierModifier_def
      questionModifier_def exclamationModifier_def)

lemma zero_matches_base: "totalScore t = 0 \<Longrightarrow> baseScore t = 1/2 \<and> baseConfidence t = 3/10"
  by (simp add: baseScore_def baseConfidence_def)

text \<open>
  C2 (amended). For every text with zero weighted lexicon matches the confidence is exactly
  0.3 and the score before the context modifiers is exactly 0.5; the returned score is
  exactly 0.5, with the label NEUTRAL, when the text has no intensifier and no exclamation
  mark. In particular the result for the empty text is score 0.5 with confidence 0.3.
\<close>

theorem zero_matches_default:
  "(totalScore t = 0 \<longrightarrow>
      score_result.confidence (calculateSentimentScore t) = 3/10
      \<and> baseScore t = 1/2
      \<and> (\<not> hasIntensifier t \<and> exclamationCount t = 0 \<longrightarrow>
           score (calculateSentimentScore t) = 1/2
           \<and> label (calculateSentimentScore t) = NEUTRAL))
   \<and> calculateSentimentScore [] =
       \<lparr>score = 1/2, label = NEUTRAL, confidence = 3/10, keywords = []\<rparr>"
proof -
  have e: "calculateSentimentScore [] =
       \<lparr>score = 1/2, label = NEUTRAL, confidence = 3/10, keywords = []\<rparr>"
    by code_simp
  have "score_result.confidence (calculateSentimentScore t) = 3/10" if "totalScore t = 0"
  proof -
    have "baseConfidence t = 3/10"
      using zero_matches_base[OF that] by blast
    then show ?thesis
      by (simp only: calculateSentimentScore_def score_result.simps toFixed3_values)
  qed
  moreover have "score (calculateSentimentScore t) = 1/2 \<and> label (calculateSentimentScore t) = NEUTRAL"
    if "totalScore t = 0" "\<not> hasIntensifier t" "exclamationCount t = 0"
  proof -
    have b: "baseScore t = 1/2"
      using zero_matches_base[OF that(1)] by blast
    have f: "finalScore t = 1/2"
      by (simp add: finalScore_def b applyContextModifiers_half[OF that(2,3)])
    show ?thesis
      by (simp add: calculateSentimentScore_def f toFixed3_values labelOf_def)
  qed
  ultimately show ?thesis
    using e zero_matches_base[of t] by blast
qed

theorem zero_matches_default_witness:
  "totalScore ''hello world'' = 0
   \<and> \<not> hasIntensifier ''hello world'' \<and> exclamationCount ''hello world'' = 0
   \<and> score (calculateSentimentScore ''hello world'') = 1/2
   \<and> score_result.confidence (calculateSentimentScore ''hello world'') = 3/10"
proof -
  have "totalScore ''hello world'' = 0" "\<not> hasIntensifier ''hello world''"
    "exclamationCount ''hello world'' = 0"
    by code_simp+
  then show ?thesis
    using zero_matches_default[of "''hello world''"] by blast
qed

text \<open>
  C2 as stated fails: the text \<open>very\<close> matches no lexicon word, and the intensifier step
  multiplies the default 0.5, which is not above 0.5, by 0.8: the returned score is 0.4.
\<close>

theorem zero_matches_intensifier_counterexample:
  "totalScore ''very'' = 0
   \<and> score (calculateSentimentScore ''very'') = 4/10
   \<and> score (calculateSentimentScore ''very'') \<noteq> 1/2"
  by code_simp

subsection \<open>Texts of negative keywords\<close>






text \<open>
  The empty text has no word at all; its score is the neutral default 0.5, which is not
  below 0.5 either.
\<close>

lemma empty_text_not_below_half:
  "set (wordsOf []) \<subseteq> set negativeKeywords \<and> \<not> hasNegation []
   \<and> score (calculateSentimentScore []) = 1/2"
  by code_simp


subsection \<open>Substrings\<close>

lemma includes_iff_sublist: "includes t w \<longleftrightarrow> sublist w t"
  by (induction t) (simp_all add: sublist_Cons_right)

lemma includes_middle: "includes (a @ w @ b) w"
  by (simp add: includes_iff_sublist)

lemma hasNegation_iff: "hasNegation t \<longleftrightarrow> (\<exists>w \<in> set negationWords. sublist w t)"
  by (simp add: hasNegation_def list_ex_iff includes_iff_sublist)

subsection \<open>Negation\<close>

text \<open>
  C6. For every text that contains two or more negation words, the negation step inverts
  the score exactly once: the result of the step is \<open>1 - score\<close> whatever the number of
  negation words, the later steps run on \<open>1 - score\<close>, and the second negation word does
  not give back the score that came in unless that score is 0.5.
\<close>

theorem negation_inverts_once:
  assumes "w1 \<in> set negationWords" and "w2 \<in> set negationWords"
    and "t = a @ w1 @ b @ w2 @ c"
  shows "hasNegation t
    \<and> negationModifier t s = 1 - s
    \<and> applyContextModifiers t s =
        exclamationModifier t (questionModifier t (intensifierModifier t (1 - s)))
    \<and> negationModifier t s = negationModifier (a @ w1 @ b) s
    \<and> (s \<noteq> 1/2 \<longrightarrow> negationModifier t s \<noteq> s)"
proof -
  have "includes t w1"
    unfolding assms(3) by (rule includes_middle)
  then have h: "hasNegation t"
    using assms(1) by (auto simp: hasNegation_def list_ex_iff)
  have "includes (a @ w1 @ b) w1"
    by (rule includes_middle)
  then have h1: "hasNegation (a @ w1 @ b)"
    using assms(1) by (auto simp: hasNegation_def list_ex_iff)
  show ?thesis
    using h h1 by (auto simp: negationModifier_def applyContextModifiers_def)
qed

theorem negation_inverts_once_witness:
  "''not'' \<in> set negationWords \<and> ''never'' \<in> set negationWords
   \<and> negationModifier ''not never bad'' (3/10) = 1 - 3/10
   \<and> negationModifier ''not never bad'' (3/10) \<noteq> 3/10"
proof -
  have h: "''not'' \<in> set negationWords" "''never'' \<in> set negationWords"
    by (simp_all add: negationWords_def)
  have t: "''not never bad'' = [] @ ''not'' @ '' '' @ ''never'' @ '' bad''"
    by simp
  show ?thesis
    using h negation_inverts_once[OF h t, of "3/10"] by simp
qed

subsection \<open>Batches\<close>






text \<open>
  The hypothesis on the batch size is needed: with a negative \<^verbatim>\<open>BATCH_SIZE\<close> the index
  of the loop only decreases and the loop never ends on a non-empty array.
\<close>

lemma analyzeBatchLoop_negative:
  assumes "batchSize svc < 0" and "i < int (length texts)"
  shows "analyzeBatchLoop svc texts i results = None"
proof -
  have "batchSize svc < 0 \<longrightarrow> i < int (length texts) \<longrightarrow> False"
    if "analyzeBatchLoop svc texts i results = Some y" for y
  proof (rule analyzeBatchLoop.raw_induct[where P = "\<lambda>svc texts i results y.
          batchSize svc < 0 \<longrightarrow> i < int (length texts) \<longrightarrow> False", OF _ that])
    fix loop :: "service \<Rightarrow> jsval list \<Rightarrow> int \<Rightarrow> sentiment list \<Rightarrow> sentiment list option"
    fix svc texts i results y
    assume IH: "\<And>svc texts i results y. loop svc texts i results = Some y \<Longrightarrow>
          batchSize svc < 0 \<longrightarrow> i < int (length texts) \<longrightarrow> False"
      and step: "(if i < int (length texts)
        then (let batch = slice texts i (i + batchSize svc);
                  batchResults = map (analyzeSentiment svc) batch
              in loop svc texts (i + batchSize svc) (results @ batchResults))
        else Some results) = Some y"
    show "batchSize svc < 0 \<longrightarrow> i < int (length texts) \<longrightarrow> False"
    proof (intro impI)
      assume b: "batchSize svc < 0" and l: "i < int (length texts)"
      from step l have "loop svc texts (i + batchSize svc)
          (results @ map (analyzeSentiment svc) (slice texts i (i + batchSize svc))) = Some y"
        by (simp add: Let_def)
      from IH[OF this] b l show False
        by simp
    qed
  qed
  then show ?thesis
    using assms by (cases "analyzeBatchLoop svc texts i results") auto
qed

subsection \<open>Emotions\<close>

lemma hd_insertBy:
  "hd (insertBy compareCount x ys) =
     (case ys of [] \<Rightarrow> x | y # _ \<Rightarrow> if snd x < snd y then y else x)"
  by (cases ys) (auto simp: compareCount_def)

lemma insertBy_not_Nil: "insertBy cmp x ys \<noteq> []"
  by (cases ys) auto

lemma sortBy_Cons: "sortBy cmp (x # xs) = insertBy cmp x (sortBy cmp xs)"
  by (simp add: sortBy_def)

lemma sortBy_Nil_iff: "sortBy cmp xs = [] \<longleftrightarrow> xs = []"
  by (cases xs) (simp_all add: sortBy_def insertBy_not_Nil)

lemma first_max_exists:
  assumes "xs \<noteq> []"
  shows "\<exists>before after. xs = before @ [hd (sortBy compareCount xs)] @ after
     \<and> (\<forall>y \<in> set before. snd y < snd (hd (sortBy compareCount xs)))
     \<and> (\<forall>y \<in> set after. snd y \<le> snd (hd (sortBy compareCount xs)))"
  using assms
proof (induction xs)
  case Nil
  then show ?case by simp
next
  case (Cons x xs)
  show ?case
  proof (cases "xs = []")
    case True
    then show ?thesis
      by (auto simp: sortBy_def intro!: exI[of _ "[]"])
  next
    case False
    let ?m = "hd (sortBy compareCount xs)"
    from Cons.IH[OF False] obtain before after where
      d: "xs = before @ [?m] @ after" "\<forall>y \<in> set before. snd y < snd ?m"
         "\<forall>y \<in> set after. snd y \<le> snd ?m"
      by blast
    have ne: "sortBy compareCount xs \<noteq> []"
      using False by (simp add: sortBy_Nil_iff)
    then have h: "hd (sortBy compareCount (x # xs)) = (if snd x < snd ?m then ?m else x)"
      by (cases "sortBy compareCount xs") (auto simp: sortBy_Cons compareCount_def)
    show ?thesis
    proof (cases "snd x < snd ?m")
      case True
      have "x # xs = (x # before) @ [?m] @ after"
        using d(1) by simp
      then show ?thesis
        using True d(2,3) h by (metis set_ConsD)
    next
      case False
      have "x # xs = [] @ [x] @ xs"
        by simp
      moreover have "\<forall>y \<in> set xs. snd y \<le> snd x"
      proof
        fix y assume "y \<in> set xs"
        then have "y \<in> set before \<or> y = ?m \<or> y \<in> set after"
          using d(1) by (metis Un_iff append_Cons append_Nil set_ConsD set_append)
        then have "snd y \<le> snd ?m"
          using d(2,3) by (auto intro: less_imp_le)
        then show "snd y \<le> snd x"
          using False by simp
      qed
      ultimately show ?thesis
        using False h by (metis empty_iff list.set(1))
    qed
  qed
qed


lemma hd_sortBy_mem: "xs \<noteq> [] \<Longrightarrow> hd (sortBy compareCount xs) \<in> set xs"
  using first_max_exists[of xs] by (metis append_Cons append_Nil in_set_conv_decomp)

lemma hd_sortBy_Cons:
  "xs \<noteq> [] \<Longrightarrow> hd (sortBy compareCount (x # xs)) =
     (if snd x < snd (hd (sortBy compareCount xs)) then hd (sortBy compareCount xs) else x)"
  by (cases "sortBy compareCount xs")
    (auto simp: sortBy_Cons sortBy_Nil_iff compareCount_def)

lemma hd_sortBy_first_max:
  assumes "xs = before @ [x] @ after"
    and "\<forall>y \<in> set before. snd y < snd x"
    and "\<forall>y \<in> set after. snd y \<le> snd x"
  shows "hd (sortBy compareCount xs) = x"
  using assms(1,2)
proof (induction before arbitrary: xs)
  case Nil
  show ?case
  proof (cases "after = []")
    case True
    then show ?thesis
      using Nil by (simp add: sortBy_def)
  next
    case False
    then have "snd (hd (sortBy compareCount after)) \<le> snd x"
      using hd_sortBy_mem[OF False] assms(3) by blast
    then show ?thesis
      using Nil False by (simp add: hd_sortBy_Cons)
  qed
next
  case (Cons b bs)
  have "hd (sortBy compareCount (bs @ [x] @ after)) = x"
    using Cons.prems by (intro Cons.IH) auto
  then show ?case
    using Cons.prems by (simp add: hd_sortBy_Cons)
qed

lemma entries_emotions: "entries emotions = emotions"
  by (simp add: entries_def emotions_def isArrayIndex_def isDigit_def)

lemma emotionScores_eq:
  "emotionScores c =
     map (\<lambda>(emotion, kws). (emotion, length (filter (\<lambda>keyword. sublist keyword c) kws))) emotions"
  by (simp add: emotionScores_def entries_emotions includes_iff_sublist)

lemma entries_emotionScores: "entries (emotionScores c) = emotionScores c"
  by (simp add: emotionScores_eq emotions_def entries_def isArrayIndex_def isDigit_def)

lemma emotionScores_not_Nil: "emotionScores c \<noteq> []"
  by (simp add: emotionScores_eq emotions_def)

text \<open>
  C10 (amended). \<open>getEmotionAnalysis\<close> counts, for each of the six categories joy, anger,
  fear, sadness, surprise and trust, in this order, how many keywords of the category occur
  in the preprocessed text, and returns as dominant emotion the first category, in this
  order, that has the highest count, when that count is positive: a tie between categories
  goes to the earlier one. It returns neutral exactly when all counts are zero.
\<close>

theorem dominant_emotion_first_max:
  assumes "emotionScores (preprocessText v) = before @ [(e, n)] @ after"
    and "\<forall>y \<in> set before. snd y < n"
    and "\<forall>y \<in> set after. snd y \<le> n"
  shows "getEmotionAnalysis v =
      Inr \<lparr>dominant_emotion = (if n > 0 then e else ''neutral''),
           emotion_scores =
             map (\<lambda>(emotion, kws).
                    (emotion, length (filter (\<lambda>keyword. sublist keyword (preprocessText v)) kws)))
                 emotions\<rparr>"
proof -
  let ?c = "preprocessText v"
  have h: "hd (sortBy compareCount (emotionScores ?c)) = (e, n)"
    using hd_sortBy_first_max[OF assms(1)] assms(2,3) by simp
  have "sortBy compareCount (emotionScores ?c) \<noteq> []"
    by (simp add: sortBy_Nil_iff emotionScores_not_Nil)
  then obtain rest where "sortBy compareCount (emotionScores ?c) = (e, n) # rest"
    using h by (cases "sortBy compareCount (emotionScores ?c)") auto
  then show ?thesis
    by (simp add: getEmotionAnalysis_def entries_emotionScores Let_def emotionScores_eq[symmetric])
qed

theorem dominant_emotion_first_max_witness:
  "emotionScores (preprocessText (JStr ''So worried... and so sad!'')) =
     [(''joy'', 0), (''anger'', 0)] @ [(''fear'', 1)]
       @ [(''sadness'', 1), (''surprise'', 0), (''trust'', 0)]
   \<and> list_all (\<lambda>y. snd y < 1) [(''joy'', 0 :: nat), (''anger'', 0)]
   \<and> list_all (\<lambda>y. snd y \<le> 1) [(''sadness'', 1 :: nat), (''surprise'', 0), (''trust'', 0)]
   \<and> getEmotionAnalysis (JStr ''So worried... and so sad!'') =
      Inr \<lparr>dominant_emotion = ''fear'',
           emotion_scores =
             map (\<lambda>(emotion, kws).
                    (emotion, length (filter (\<lambda>keyword. sublist keyword
                        (preprocessText (JStr ''So worried... and so sad!''))) kws)))
                 emotions\<rparr>"
proof -
  have a: "emotionScores (preprocessText (JStr ''So worried... and so sad!'')) =
     [(''joy'', 0), (''anger'', 0)] @ [(''fear'', 1)]
       @ [(''sadness'', 1), (''surprise'', 0), (''trust'', 0)]"
    by code_simp
  have b: "\<forall>y \<in> set [(''joy'', 0 :: nat), (''anger'', 0)]. snd y < 1"
    by simp
  have c: "\<forall>y \<in> set [(''sadness'', 1 :: nat), (''surprise'', 0), (''trust'', 0)]. snd y \<le> 1"
    by simp
  show ?thesis
    using a b c dominant_emotion_first_max[OF a b c] by simp
qed

text \<open>
  C10 as stated fails on a tie: in \<open>happy angry\<close> joy and anger both have the highest
  count 1, and the dominant emotion is joy, not neutral.
\<close>

theorem dominant_emotion_tie_counterexample:
  "getEmotionAnalysis (JStr ''happy angry'') =
     Inr \<lparr>dominant_emotion = ''joy'',
          emotion_scores = [(''joy'', 1), (''anger'', 1), (''fear'', 0), (''sadness'', 0),
                            (''surprise'', 0), (''trust'', 0)]\<rparr>
   \<and> dominant_emotion (projr (getEmotionAnalysis (JStr ''happy angry''))) \<noteq> ''neutral''"
  by code_simp

text \<open>
  The dominant emotion is neutral exactly when no keyword of any category occurs.
\<close>

lemma dominant_emotion_neutral_iff:
  "(\<exists>r. getEmotionAnalysis v = Inr r \<and>
      (dominant_emotion r = ''neutral'' \<longleftrightarrow>
         (\<forall>y \<in> set (emotionScores (preprocessText v)). snd y = 0)))"
proof -
  let ?s = "emotionScores (preprocessText v)"
  obtain before after where
    d: "?s = before @ [hd (sortBy compareCount ?s)] @ after"
       "\<forall>y \<in> set before. snd y < snd (hd (sortBy compareCount ?s))"
       "\<forall>y \<in> set after. snd y \<le> snd (hd (sortBy compareCount ?s))"
    using first_max_exists[OF emotionScores_not_Nil] by blast
  obtain e n where en: "hd (sortBy compareCount ?s) = (e, n)"
    by (cases "hd (sortBy compareCount ?s)")
  have g: "getEmotionAnalysis v = Inr \<lparr>dominant_emotion = (if n > 0 then e else ''neutral''),
           emotion_scores =
             map (\<lambda>(emotion, kws).
                    (emotion, length (filter (\<lambda>keyword. sublist keyword (preprocessText v)) kws)))
                 emotions\<rparr>"
    by (rule dominant_emotion_first_max[OF d(1)[unfolded en]])
      (use d(2,3) in \<open>simp_all only: en snd_conv\<close>)
  have mem: "(e, n) \<in> set ?s"
    using d(1) en by (metis in_set_conv_decomp append_Cons append_Nil)
  then have "e \<in> fst ` set ?s"
    by force
  then have ne: "e \<noteq> ''neutral''"
    by (auto simp: emotionScores_eq emotions_def)
  have "(\<forall>y \<in> set ?s. snd y = 0) \<longleftrightarrow> n = 0"
  proof
    assume "\<forall>y \<in> set ?s. snd y = 0"
    then show "n = 0" using mem by force
  next
    assume z: "n = 0"
    have "\<forall>y \<in> set ?s. snd y \<le> n"
      using d en by (metis (no_types, lifting) Un_iff less_imp_le order_refl set_ConsD set_append snd_conv empty_iff empty_set)
    then show "\<forall>y \<in> set ?s. snd y = 0"
      using z by simp
  qed
  then show ?thesis
    using g ne by auto
qed


subsection \<open>Characters\<close>

lemma of_char_less_256: "(of_char c :: nat) < 256"
  by (cases c) (simp add: of_char_def)

lemma lowerChar_code:
  "(of_char (lowerChar c) :: nat) =
     (if (65 \<le> (of_char c :: nat) \<and> (of_char c :: nat) \<le> 90)
          \<or> (192 \<le> (of_char c :: nat) \<and> (of_char c :: nat) \<le> 222 \<and> (of_char c :: nat) \<noteq> 215)
      then of_char c + 32 else of_char c)"
  using of_char_less_256[of c] by (simp add: lowerChar_def Let_def)

lemma lowerChar_idem: "lowerChar (lowerChar c) = lowerChar c"
  by (auto simp: lowerChar_def[of "lowerChar c"] lowerChar_code Let_def)

lemma lowerChar_space: "isSpaceChar c \<Longrightarrow> lowerChar c = c"
  by (auto simp: lowerChar_def isSpaceChar_def Let_def)

lemma isSpaceChar_lowerChar: "isSpaceChar (lowerChar c) \<longleftrightarrow> isSpaceChar c"
  by (auto simp: isSpaceChar_def lowerChar_code Let_def)

subsection \<open>White space\<close>

lemma lowerChar_blank: "lowerChar (CHR '' '') = CHR '' ''" "isSpaceChar (CHR '' '')"
  by (simp_all add: lowerChar_def isSpaceChar_def)

lemma cleaned_char:
  "c \<in> set (removePunctuation (toLowerCase s)) \<Longrightarrow>
     lowerChar c = c \<and> (isWordChar c \<or> isSpaceChar c)"
  by (auto simp: removePunctuation_def toLowerCase_def lowerChar_idem lowerChar_blank)

lemma set_normalizeWhitespace:
  "c \<in> set (normalizeWhitespace s) \<Longrightarrow> c = CHR '' '' \<or> (c \<in> set s \<and> \<not> isSpaceChar c)"
  by (induction s rule: normalizeWhitespace.induct) (auto dest: set_dropWhileD split: if_splits)

lemma set_trim: "c \<in> set (trim s) \<Longrightarrow> c \<in> set s"
  unfolding trim_def by (metis set_dropWhileD set_rev)

lemma toLowerCase_id: "\<forall>c \<in> set u. lowerChar c = c \<Longrightarrow> toLowerCase u = u"
  by (simp add: toLowerCase_def map_idI)

lemma removePunctuation_id:
  "\<forall>c \<in> set u. isWordChar c \<or> isSpaceChar c \<Longrightarrow> removePunctuation u = u"
  by (simp add: removePunctuation_def map_idI)

lemma length_normalizeWhitespace: "length (normalizeWhitespace s) \<le> length s"
proof (induction s rule: normalizeWhitespace.induct)
  case 1
  show ?case by simp
next
  case (2 c cs)
  show ?case
  proof (cases "isSpaceChar c")
    case True
    then have "length (normalizeWhitespace (c # cs))
        = Suc (length (normalizeWhitespace (dropWhile isSpaceChar cs)))"
      by simp
    also have "\<dots> \<le> Suc (length (dropWhile isSpaceChar cs))"
      using 2(1)[OF True] by simp
    also have "\<dots> \<le> Suc (length cs)"
      by (simp add: length_dropWhile_le)
    finally show ?thesis by simp
  next
    case False
    then show ?thesis using 2(2) by simp
  qed
qed

lemma dropWhile_same_length: "length (dropWhile P xs) = length xs \<Longrightarrow> dropWhile P xs = xs"
proof (cases xs)
  case Nil
  then show ?thesis by simp
next
  case (Cons x ys)
  assume l: "length (dropWhile P xs) = length xs"
  have "\<not> P x"
  proof
    assume "P x"
    then have "length (dropWhile P ys) = Suc (length ys)"
      using l Cons by simp
    then show False
      using length_dropWhile_le[of P ys] by simp
  qed
  then show ?thesis
    using Cons by simp
qed

lemma normalized_blank:
  assumes "normalizeWhitespace (c # cs) = c # cs" "isSpaceChar c"
  shows "c = CHR '' '' \<and> dropWhile isSpaceChar cs = cs \<and> normalizeWhitespace cs = cs"
proof -
  have e: "c = CHR '' ''" "normalizeWhitespace (dropWhile isSpaceChar cs) = cs"
    using assms by simp_all
  have "length cs \<le> length (dropWhile isSpaceChar cs)"
    using length_normalizeWhitespace[of "dropWhile isSpaceChar cs"] e(2) by simp
  then have "dropWhile isSpaceChar cs = cs"
    by (intro dropWhile_same_length) (simp add: length_dropWhile_le le_antisym)
  then show ?thesis
    using e by simp
qed

lemma normalized_tl:
  assumes "normalizeWhitespace (c # cs) = c # cs"
  shows "normalizeWhitespace cs = cs"
proof (cases "isSpaceChar c")
  case True
  then show ?thesis
    using normalized_blank[OF assms True] by blast
next
  case False
  then have "normalizeWhitespace (c # cs) = c # normalizeWhitespace cs"
    by simp
  then have "c # normalizeWhitespace cs = c # cs"
    using assms by (simp only:)
  then show ?thesis
    by (simp only: list.inject)
qed

lemma normalized_dropWhile:
  "normalizeWhitespace s = s \<Longrightarrow> normalizeWhitespace (dropWhile P s) = dropWhile P s"
proof (induction s)
  case Nil
  show ?case by simp
next
  case (Cons a s)
  have "normalizeWhitespace s = s"
    using Cons.prems by (rule normalized_tl)
  then have "normalizeWhitespace (dropWhile P s) = dropWhile P s"
    by (rule Cons.IH)
  then show ?case
    using Cons.prems by (cases "P a") (simp_all only: dropWhile.simps if_True if_False)
qed

lemma normalized_butlast:
  "normalizeWhitespace (s @ [c]) = s @ [c] \<Longrightarrow> normalizeWhitespace s = s"
proof (induction s)
  case Nil
  show ?case by simp
next
  case (Cons d ds)
  have p: "normalizeWhitespace (d # (ds @ [c])) = d # (ds @ [c])"
    using Cons.prems by (simp only: append.simps)
  have t: "normalizeWhitespace (ds @ [c]) = ds @ [c]"
    using p by (rule normalized_tl)
  then have i: "normalizeWhitespace ds = ds"
    by (rule Cons.IH)
  show ?case
  proof (cases "isSpaceChar d")
    case True
    have b: "d = CHR '' ''" "dropWhile isSpaceChar (ds @ [c]) = ds @ [c]"
      using normalized_blank[OF p True] by blast+
    have "dropWhile isSpaceChar ds = ds"
    proof (cases ds)
      case Nil
      then show ?thesis by simp
    next
      case (Cons x xs)
      have "\<not> isSpaceChar (hd (ds @ [c]))"
        using b(2) by (metis dropWhile_eq_self_iff snoc_eq_iff_butlast)
      then have "\<not> isSpaceChar x"
        by (simp add: Cons)
      then show ?thesis
        by (simp add: Cons)
    qed
    then have "normalizeWhitespace (d # ds) = CHR '' '' # normalizeWhitespace ds"
      using True by simp
    then show ?thesis
      by (simp only: i b(1))
  next
    case False
    then have "normalizeWhitespace (d # ds) = d # normalizeWhitespace ds"
      by simp
    then show ?thesis
      by (simp only: i)
  qed
qed

lemma normalized_rev_dropWhile:
  "normalizeWhitespace s = s \<Longrightarrow>
     normalizeWhitespace (rev (dropWhile P (rev s))) = rev (dropWhile P (rev s))"
proof (induction s rule: rev_induct)
  case Nil
  show ?case by simp
next
  case (snoc c s)
  have "normalizeWhitespace s = s"
    using snoc.prems by (rule normalized_butlast)
  then have "normalizeWhitespace (rev (dropWhile P (rev s))) = rev (dropWhile P (rev s))"
    by (rule snoc.IH)
  then show ?case
    using snoc.prems by (cases "P c") (simp_all only: rev_append rev.simps append.simps dropWhile.simps if_True if_False rev_rev_ident)
qed

lemma normalized_trim: "normalizeWhitespace s = s \<Longrightarrow> normalizeWhitespace (trim s) = trim s"
  unfolding trim_def by (intro normalized_rev_dropWhile normalized_dropWhile)

lemma normalizeWhitespace_head:
  "\<not> isSpaceChar c \<Longrightarrow> dropWhile isSpaceChar (normalizeWhitespace (c # cs)) = normalizeWhitespace (c # cs)"
  by simp

lemma dropWhile_normalizeWhitespace:
  "dropWhile isSpaceChar (normalizeWhitespace (dropWhile isSpaceChar cs)) =
     normalizeWhitespace (dropWhile isSpaceChar cs)"
proof (cases "dropWhile isSpaceChar cs")
  case Nil
  show ?thesis by (simp only: Nil normalizeWhitespace.simps dropWhile.simps)
next
  case (Cons d ds)
  have "\<not> isSpaceChar (hd (dropWhile isSpaceChar cs))"
    by (rule hd_dropWhile) (simp only: Cons list.distinct not_False_eq_True)
  then have "\<not> isSpaceChar d"
    by (simp add: Cons)
  then have "dropWhile isSpaceChar (normalizeWhitespace (d # ds)) = normalizeWhitespace (d # ds)"
    by simp
  then show ?thesis
    by (simp only: Cons)
qed

lemma normalizeWhitespace_idem: "normalizeWhitespace (normalizeWhitespace s) = normalizeWhitespace s"
  by (induction s rule: normalizeWhitespace.induct)
    (simp_all add: lowerChar_blank dropWhile_normalizeWhitespace)

lemma trim_idem: "trim (trim s) = trim s"
proof -
  let ?d = "dropWhile isSpaceChar s"
  let ?e = "dropWhile isSpaceChar (rev ?d)"
  have "dropWhile isSpaceChar (rev ?e) = rev ?e"
  proof (cases "?e = []")
    case True
    show ?thesis by (simp only: True rev.simps dropWhile.simps)
  next
    case False
    have r: "rev ?d \<noteq> []"
    proof
      assume "rev ?d = []"
      then have "?e = []" by (simp only: dropWhile.simps)
      then show False using False by blast
    qed
    then have d: "?d \<noteq> []" by (simp only: rev_is_Nil_conv not_False_eq_True)
    have "rev ?d = takeWhile isSpaceChar (rev ?d) @ ?e"
      by (simp only: takeWhile_dropWhile_id)
    then have "last (rev ?d) = last ?e"
      using False by (metis last_appendR)
    moreover have "last (rev ?d) = hd ?d"
      by (rule last_rev)
    moreover have "\<not> isSpaceChar (hd ?d)"
      using d by (rule hd_dropWhile)
    ultimately have "\<not> isSpaceChar (last ?e)"
      by metis
    moreover have "hd (rev ?e) = last ?e"
      by (rule hd_rev)
    ultimately have h: "\<not> isSpaceChar (hd (rev ?e))"
      by metis
    have n: "rev ?e \<noteq> []"
      using False by (simp only: rev_is_Nil_conv not_False_eq_True)
    show ?thesis
      using h n by (cases "rev ?e") (simp_all only: dropWhile.simps list.sel if_False)
  qed
  moreover have "dropWhile isSpaceChar ?e = ?e"
    by (rule dropWhile_idem)
  ultimately have "rev (dropWhile isSpaceChar (rev (dropWhile isSpaceChar (rev ?e)))) = rev ?e"
    by (simp only: rev_rev_ident)
  then show ?thesis
    by (simp only: trim_def)
qed

lemma includes_single: "includes t [c] \<longleftrightarrow> c \<in> set t"
  by (induction t) auto

subsection \<open>Preprocessed text\<close>

lemma preprocessText_chars:
  assumes "c \<in> set (preprocessText v)"
  shows "lowerChar c = c \<and> (isWordChar c \<or> c = CHR '' '')"
proof (cases v)
  case (JStr s)
  then have "c \<in> set (trim (normalizeWhitespace (removePunctuation (toLowerCase s))))"
    using assms by (simp add: preprocessText_def split: if_splits)
  then have "c \<in> set (normalizeWhitespace (removePunctuation (toLowerCase s)))"
    by (rule set_trim)
  then have "c = CHR '' '' \<or>
      (c \<in> set (removePunctuation (toLowerCase s)) \<and> \<not> isSpaceChar c)"
    by (rule set_normalizeWhitespace)
  then show ?thesis
    using cleaned_char[of c s] lowerChar_blank by auto
qed (use assms in \<open>simp_all add: preprocessText_def\<close>)

lemma preprocessText_idem: "preprocessText (JStr (preprocessText v)) = preprocessText v"
proof (cases v)
  case (JStr s)
  show ?thesis
  proof (cases "preprocessText v = []")
    case True
    then show ?thesis by (simp add: preprocessText_def)
  next
    case False
    let ?u = "preprocessText v"
    have u: "?u = trim (normalizeWhitespace (removePunctuation (toLowerCase s)))"
      using False JStr by (simp add: preprocessText_def split: if_splits)
    have "\<forall>c \<in> set ?u. lowerChar c = c"
      using preprocessText_chars by blast
    then have l: "toLowerCase ?u = ?u"
      by (rule toLowerCase_id)
    have "\<forall>c \<in> set ?u. isWordChar c \<or> isSpaceChar c"
      using preprocessText_chars lowerChar_blank(2) by blast
    then have p: "removePunctuation ?u = ?u"
      by (rule removePunctuation_id)
    have n: "normalizeWhitespace ?u = ?u"
      unfolding u by (rule normalized_trim) (rule normalizeWhitespace_idem)
    have t: "trim ?u = ?u"
      unfolding u by (rule trim_idem)
    have "preprocessText (JStr ?u) = trim (normalizeWhitespace (removePunctuation (toLowerCase ?u)))"
      using False by (simp add: preprocessText_def)
    then show ?thesis
      by (simp only: l p n t)
  qed
qed (simp_all add: preprocessText_def)

lemma preprocessText_no_marks:
  "CHR ''?'' \<notin> set (preprocessText v)" "CHR ''!'' \<notin> set (preprocessText v)"
proof -
  have "\<not> (isWordChar (CHR ''?'') \<or> CHR ''?'' = CHR '' '')"
       "\<not> (isWordChar (CHR ''!'') \<or> CHR ''!'' = CHR '' '')"
    by (simp_all add: isWordChar_def)
  then show "CHR ''?'' \<notin> set (preprocessText v)" "CHR ''!'' \<notin> set (preprocessText v)"
    using preprocessText_chars by blast+
qed

lemma marks_as_blanks:
  "preprocessText (JStr (map (\<lambda>c. if c = CHR ''?'' \<or> c = CHR ''!'' then CHR '' '' else c) s))
     = preprocessText (JStr s)"
proof -
  have "removePunctuation (toLowerCase
        (map (\<lambda>c. if c = CHR ''?'' \<or> c = CHR ''!'' then CHR '' '' else c) s))
      = removePunctuation (toLowerCase s)"
    by (auto simp: removePunctuation_def toLowerCase_def lowerChar_def isWordChar_def
        isSpaceChar_def)
  then show ?thesis
    by (simp add: preprocessText_def)
qed

text \<open>
  C8 (amended). For every input, \<open>analyzeSentiment\<close> of the input equals
  \<open>analyzeSentiment\<close> of its preprocessed text. The preprocessed text has no question
  mark and no exclamation mark, so on this path the question-mark and the
  exclamation-mark steps never change the score; and a question mark or an exclamation
  mark counts as a space: putting a space in the place of any of them never changes the
  output of \<open>analyzeSentiment\<close>.
\<close>

theorem analyzeSentiment_preprocessed:
  "analyzeSentiment svc v = analyzeSentiment svc (JStr (preprocessText v))
   \<and> questionModifier (preprocessText v) x = x
   \<and> exclamationModifier (preprocessText v) x = x
   \<and> analyzeSentiment svc
        (JStr (map (\<lambda>c. if c = CHR ''?'' \<or> c = CHR ''!'' then CHR '' '' else c) s))
       = analyzeSentiment svc (JStr s)"
proof -
  have q: "questionModifier (preprocessText v) x = x"
    using preprocessText_no_marks(1)[of v] by (simp add: questionModifier_def includes_single)
  have "filter (\<lambda>c. c = CHR ''!'') (preprocessText v) = []"
    using preprocessText_no_marks(2)[of v] by (auto simp: filter_empty_conv)
  then have e: "exclamationModifier (preprocessText v) x = x"
    by (simp add: exclamationModifier_def exclamationCount_def)
  show ?thesis
    using q e by (simp add: analyzeSentiment_eq preprocessText_idem marks_as_blanks)
qed

text \<open>
  C8 as stated fails: an exclamation mark put inside a word splits the word, since
  punctuation is replaced by a space and not deleted.
\<close>

theorem inserted_mark_counterexample:
  "analyzeSentiment (constructor None) (JStr ''excel!lent'')
     \<noteq> analyzeSentiment (constructor None) (JStr ''excellent'')
   \<and> sentiment_score (analyzeSentiment (constructor None) (JStr ''excel!lent'')) = 1/2
   \<and> sentiment_score (analyzeSentiment (constructor None) (JStr ''excellent'')) = 9/10"
  by code_simp

subsection \<open>The documented example\<close>

text \<open>
  C7. The input of the example, through \<open>analyzeSentiment\<close>: the two positive keywords
  match, the base score is 0.9 and the label POSITIVE, but the text that reaches the
  context modifiers has lost its exclamation mark, and the score stays 0.9. Only
  \<open>calculateSentimentScore\<close> on the raw text sees the mark, and there one keyword matches.
\<close>

theorem example_exclamation_lost:
  "preprocessText (JStr ''This product is excellent and amazing!'')
     = ''this product is excellent and amazing''
   \<and> analyzeSentiment (constructor None) (JStr ''This product is excellent and amazing!'')
     = \<lparr>sentiment_score = 9/10, sentiment_label = POSITIVE, confidence = 8/10,
        keywords = [''excellent'', ''amazing'']\<rparr>
   \<and> baseScore ''this product is excellent and amazing'' = 9/10
   \<and> exclamationCount ''this product is excellent and amazing'' = 0
   \<and> applyContextModifiers ''this product is excellent and amazing'' (9/10) = 9/10
   \<and> calculateSentimentScore ''This product is excellent and amazing!''
     = \<lparr>score = 1, label = POSITIVE, confidence = 4/10, keywords = [''excellent'']\<rparr>"
  by code_simp

subsection \<open>Values that are no strings\<close>

text \<open>
  C5. The claim lists \<open>extractBrandMentions\<close> and \<open>calculateSentimentScore\<close> among the
  functions that never raise. The first guards \<open>brands\<close> only and calls
  \<^verbatim>\<open>text.toLowerCase()\<close> on whatever text it gets; the second starts with
  \<^verbatim>\<open>text.split(' ')\<close>. On \<open>null\<close> both raise a TypeError.
\<close>

theorem unguarded_text_raises:
  "extractBrandMentions JNull (JArr [JStr ''Tesla'']) = Inl TypeError
   \<and> calculateSentimentScoreOf JNull = Inl TypeError"
  by (simp add: extractBrandMentions_def calculateSentimentScoreOf_def)

text \<open>
  The functions that go through \<open>preprocessText\<close>, and the guards on arrays, do map every
  value that is no string to the documented defaults.
\<close>

lemma preprocessText_not_string: "\<forall>s. v \<noteq> JStr s \<Longrightarrow> preprocessText v = []"
  by (cases v) (simp_all add: preprocessText_def)

lemma calculateSentimentScore_empty:
  "calculateSentimentScore [] = \<lparr>score = 1/2, label = NEUTRAL, confidence = 3/10, keywords = []\<rparr>"
  by code_simp

lemma extractKeywords_empty_text: "preprocessText v = [] \<Longrightarrow> extractKeywords v n = []"
  by (simp add: extractKeywords_def wordFrequencies_def countFreq_def entries_def sortBy_def
      slice_def)

lemma getEmotionAnalysis_empty_text:
  "getEmotionAnalysis (JStr []) =
     Inr \<lparr>dominant_emotion = ''neutral'',
          emotion_scores = [(''joy'', 0), (''anger'', 0), (''fear'', 0), (''sadness'', 0),
                            (''surprise'', 0), (''trust'', 0)]\<rparr>"
  by code_simp

lemma getEmotionAnalysis_cong:
  "preprocessText v = preprocessText w \<Longrightarrow> getEmotionAnalysis v = getEmotionAnalysis w"
  by (simp add: getEmotionAnalysis_def)

lemma defaults_on_invalid_input:
  assumes "\<forall>s. v \<noteq> JStr s"
  shows "analyzeSentiment svc v = getDefaultSentiment"
    and "extractKeywords v n = []"
    and "getEmotionAnalysis v =
           Inr \<lparr>dominant_emotion = ''neutral'',
                emotion_scores = [(''joy'', 0), (''anger'', 0), (''fear'', 0), (''sadness'', 0),
                                  (''surprise'', 0), (''trust'', 0)]\<rparr>"
    and "\<forall>ts. v \<noteq> JArr ts \<Longrightarrow> analyzeBatch svc v = Some []"
    and "\<forall>ts. v \<noteq> JArr ts \<Longrightarrow> extractBrandMentions text v = Inr []"
proof -
  have p: "preprocessText v = []"
    using assms by (rule preprocessText_not_string)
  show "analyzeSentiment svc v = getDefaultSentiment"
    by (simp add: analyzeSentiment_eq p calculateSentimentScore_empty getDefaultSentiment_def)
  show "extractKeywords v n = []"
    using p by (rule extractKeywords_empty_text)
  have "preprocessText (JStr []) = []"
    by (simp add: preprocessText_def)
  then have "preprocessText v = preprocessText (JStr [])"
    by (simp only: p)
  then show "getEmotionAnalysis v =
           Inr \<lparr>dominant_emotion = ''neutral'',
                emotion_scores = [(''joy'', 0), (''anger'', 0), (''fear'', 0), (''sadness'', 0),
                                  (''surprise'', 0), (''trust'', 0)]\<rparr>"
    using getEmotionAnalysis_cong getEmotionAnalysis_empty_text by metis
  show "analyzeBatch svc v = Some []" if "\<forall>ts. v \<noteq> JArr ts"
    using that by (cases v) (simp_all add: analyzeBatch_def)
  show "extractBrandMentions text v = Inr []" if "\<forall>ts. v \<noteq> JArr ts"
    using that by (cases v) (simp_all add: extractBrandMentions_def)
qed

lemma string_inputs_return:
  "calculateSentimentScoreOf (JStr s) = Inr (calculateSentimentScore s)"
  "\<exists>ms. extractBrandMentions (JStr s) (JArr (map JStr bs)) = Inr ms"
proof -
  show "calculateSentimentScoreOf (JStr s) = Inr (calculateSentimentScore s)"
    by (rule calc_string)
  have "\<exists>ms. collectMentions c (map JStr bs) acc = Inr ms" for c acc
    by (induction bs arbitrary: acc) simp_all
  then show "\<exists>ms. extractBrandMentions (JStr s) (JArr (map JStr bs)) = Inr ms"
    by (simp add: extractBrandMentions_def)
qed

subsection \<open>Keywords\<close>

text \<open>
  C9. \<open>extractKeywords\<close> counts in a plain object. For the word \<open>constructor\<close> the first
  read of \<^verbatim>\<open>wordFreq[word]\<close> finds the inherited \<^verbatim>\<open>Object.prototype.constructor\<close>,
  the sum with 1 is a string, and the comparator of the sort gives NaN for it: the word
  keeps its place before \<open>pattern\<close>, which occurs twice while it occurs once.
\<close>

theorem constructor_keyword_miscounted:
  "split (preprocessText (JStr ''constructor pattern pattern''))
     = [''constructor'', ''pattern'', ''pattern'']
   \<and> wordFrequencies (JStr ''constructor pattern pattern'')
     = [(''constructor'', Text ''function Object() { [native code] }1''),
        (''pattern'', Count 2)]
   \<and> extractKeywords (JStr ''constructor pattern pattern'') 10 = [''constructor'', ''pattern'']"
  by code_simp

lemma extractKeywords_empty: "extractKeywords (JStr []) 10 = []"
  by (simp add: extractKeywords_empty_text preprocessText_def)

subsection \<open>Keywords of a text without inherited property names\<close>

lemma set_split: "w \<in> set (split t) \<Longrightarrow> set w \<subseteq> set t"
proof (induction t arbitrary: w)
  case Nil
  then show ?case by simp
next
  case (Cons c cs)
  show ?case
  proof (cases "c = CHR '' ''")
    case True
    then show ?thesis
      using Cons by auto
  next
    case False
    obtain p ps where s: "split cs = p # ps"
      by (cases "split cs"; cases cs; simp split: if_splits list.splits)
    then have "w = c # p \<or> w \<in> set ps"
      using Cons.prems False by simp
    then show ?thesis
      using Cons.IH[of p] Cons.IH[of w] s by auto
  qed
qed

lemma map_of_setOwn: "map_of (setOwn k v fq) = (map_of fq)(k \<mapsto> v)"
  by (induction fq) (auto simp: fun_eq_iff)

lemma keys_setOwn_old: "k \<in> fst ` set fq \<Longrightarrow> map fst (setOwn k v fq) = map fst fq"
  by (induction fq) force+

lemma keys_setOwn_new: "k \<notin> fst ` set fq \<Longrightarrow> map fst (setOwn k v fq) = map fst fq @ [k]"
  by (induction fq) auto

lemma keys_setOwn:
  "map fst (setOwn k v fq) = (if k \<in> fst ` set fq then map fst fq else map fst fq @ [k])"
  by (simp add: keys_setOwn_old keys_setOwn_new)

lemma map_of_countFreq:
  assumes "inherited w = None"
    and "\<And>k. map_of fq k = (if g k = 0 then None else Some (Count (g k)))"
  shows "map_of (countFreq fq w) k =
     (if (if length w > 3 then g(w := Suc (g w)) else g) k = 0 then None
      else Some (Count ((if length w > 3 then g(w := Suc (g w)) else g) k)))"
proof (cases "length w > 3")
  case False
  then show ?thesis
    using assms(2) by (simp add: countFreq_def)
next
  case True
  have p: "w \<noteq> ''__proto__''"
    using assms(1) by (auto simp: inherited_def)
  have "countFreq fq w = setOwn w (Count (Suc (g w))) fq"
    using True p assms by (simp add: countFreq_def Let_def)
  then show ?thesis
    using True assms(2) by (simp add: map_of_setOwn)
qed

lemma map_of_foldl_countFreq:
  assumes "\<forall>w \<in> set ws. inherited w = None"
    and "\<And>k. map_of fq k = (if g k = 0 then None else Some (Count (g k)))"
  shows "map_of (foldl countFreq fq ws) k =
     (if g k + (if length k > 3 then count_list ws k else 0) = 0 then None
      else Some (Count (g k + (if length k > 3 then count_list ws k else 0))))"
  using assms
proof (induction ws arbitrary: fq g)
  case Nil
  then show ?case by simp
next
  case (Cons w ws)
  let ?g = "if length w > 3 then g(w := Suc (g w)) else g"
  have i: "inherited w = None"
    using Cons.prems(1) by simp
  have "map_of (foldl countFreq (countFreq fq w) ws) k =
     (if ?g k + (if length k > 3 then count_list ws k else 0) = 0 then None
      else Some (Count (?g k + (if length k > 3 then count_list ws k else 0))))"
    by (rule Cons.IH) (use Cons.prems in \<open>simp_all add: map_of_countFreq[OF i]\<close>)
  then show ?case
    by auto
qed

lemma distinct_keys_countFreq:
  "distinct (map fst fq) \<Longrightarrow> distinct (map fst (countFreq fq w))"
  by (auto simp: countFreq_def Let_def keys_setOwn)

lemma distinct_keys_foldl_countFreq:
  "distinct (map fst fq) \<Longrightarrow> distinct (map fst (foldl countFreq fq ws))"
  by (induction ws arbitrary: fq) (simp_all add: distinct_keys_countFreq)

lemma wordFreq_entries:
  assumes "\<forall>w \<in> set ws. inherited w = None"
  shows "distinct (map fst (foldl countFreq [] ws))"
    and "(k, v) \<in> set (foldl countFreq [] ws) \<longleftrightarrow>
           length k > 3 \<and> k \<in> set ws \<and> v = Count (count_list ws k)"
proof -
  show d: "distinct (map fst (foldl countFreq [] ws))"
    by (rule distinct_keys_foldl_countFreq) simp
  have "map_of (foldl countFreq [] ws) k =
     (if (0::nat) + (if length k > 3 then count_list ws k else 0) = 0 then None
      else Some (Count (0 + (if length k > 3 then count_list ws k else 0))))"
    by (rule map_of_foldl_countFreq[OF assms]) simp
  then have "map_of (foldl countFreq [] ws) k = Some v \<longleftrightarrow>
      length k > 3 \<and> k \<in> set ws \<and> v = Count (count_list ws k)"
    using count_list_0_iff[of ws k] by (cases "k \<in> set ws") auto
  then show "(k, v) \<in> set (foldl countFreq [] ws) \<longleftrightarrow>
           length k > 3 \<and> k \<in> set ws \<and> v = Count (count_list ws k)"
    using d by simp
qed

lemma set_entries: "set (entries obj) = set obj"
  by (auto simp: entries_def)

lemma distinct_entries: "distinct obj \<Longrightarrow> distinct (entries obj)"
  by (auto simp: entries_def)

lemma set_insertBy: "set (insertBy cmp x ys) = insert x (set ys)"
  by (induction ys) auto

lemma set_sortBy: "set (sortBy cmp xs) = set xs"
  by (induction xs) (simp_all add: sortBy_def set_insertBy)

lemma distinct_insertBy: "distinct (insertBy cmp x ys) \<longleftrightarrow> x \<notin> set ys \<and> distinct ys"
  by (induction ys) (auto simp: set_insertBy)

lemma distinct_sortBy: "distinct (sortBy cmp xs) \<longleftrightarrow> distinct xs"
  by (induction xs) (simp_all add: sortBy_def distinct_insertBy set_sortBy[unfolded sortBy_def])

lemma sorted_insertBy:
  assumes "\<And>a b. a \<in> insert x (set ys) \<Longrightarrow> b \<in> insert x (set ys) \<Longrightarrow>
            (cmp a b > 0 \<longleftrightarrow> key a < key b)"
    and "sorted_wrt (\<lambda>a b. key a \<ge> key b) ys"
  shows "sorted_wrt (\<lambda>a b. (key a :: nat) \<ge> key b) (insertBy cmp x ys)"
  using assms
proof (induction ys)
  case Nil
  then show ?case by simp
next
  case (Cons y ys)
  show ?case
  proof (cases "cmp x y > 0")
    case True
    then have "key x < key y"
      using Cons.prems(1)[of x y] by simp
    moreover have "sorted_wrt (\<lambda>a b. key a \<ge> key b) (insertBy cmp x ys)"
      using Cons.prems by (intro Cons.IH) auto
    ultimately show ?thesis
      using True Cons.prems(2) by (auto simp: set_insertBy)
  next
    case False
    then have "key y \<le> key x"
      using Cons.prems(1)[of x y] by simp
    then show ?thesis
      using False Cons.prems(2) by auto
  qed
qed

lemma sorted_sortBy:
  assumes "\<And>a b. a \<in> set xs \<Longrightarrow> b \<in> set xs \<Longrightarrow> (cmp a b > 0 \<longleftrightarrow> key a < key b)"
  shows "sorted_wrt (\<lambda>a b. (key a :: nat) \<ge> key b) (sortBy cmp xs)"
  using assms
proof (induction xs)
  case Nil
  then show ?case by (simp add: sortBy_def)
next
  case (Cons x xs)
  have "sorted_wrt (\<lambda>a b. key a \<ge> key b) (sortBy cmp xs)"
    using Cons.prems by (intro Cons.IH) auto
  then have "sorted_wrt (\<lambda>a b. key a \<ge> key b) (insertBy cmp x (sortBy cmp xs))"
    using Cons.prems by (intro sorted_insertBy) (auto simp: set_sortBy)
  then show ?case
    by (simp add: sortBy_def)
qed

lemma slice_from_0: "0 \<le> n \<Longrightarrow> slice xs 0 n = take (nat n) xs"
  by (auto simp: slice_def min_def Let_def)

lemma capital_not_fixed:
  "65 \<le> (of_char c :: nat) \<Longrightarrow> (of_char c :: nat) \<le> 90 \<Longrightarrow> (lowerChar c = c) = False"
  using lowerChar_code[of c] by auto

lemma prototypeMethods_capital: "w \<in> set prototypeMethods \<Longrightarrow> \<exists>c \<in> set w. lowerChar c \<noteq> c"
  by (auto simp: prototypeMethods_def capital_not_fixed)

lemma token_not_inherited:
  assumes "w \<in> set (split (preprocessText v))"
    and "w \<noteq> ''constructor''" and "w \<noteq> ''__proto__''"
  shows "inherited w = None"
proof -
  have "\<forall>c \<in> set w. lowerChar c = c"
    using set_split[OF assms(1)] preprocessText_chars by blast
  then have "w \<notin> set prototypeMethods"
    using prototypeMethods_capital by blast
  then show ?thesis
    using assms(2,3) by (simp add: inherited_def)
qed

text \<open>
  For a text in which neither \<open>constructor\<close> nor \<open>__proto__\<close> is a word, and a
  limit that is not negative, \<open>extractKeywords\<close> does what C9 says: the result has no
  repetition and at most \<open>maxKeywords\<close> words, each is a word of the preprocessed text
  longer than 3, the frequencies do not increase along the result, and a word that is left
  out is at most as frequent as every word of the result, which is then full.
\<close>

lemma extractKeywords_by_frequency:
  assumes "''constructor'' \<notin> set (split (preprocessText v))"
    and "''__proto__'' \<notin> set (split (preprocessText v))"
    and "0 \<le> maxKeywords"
  shows "distinct (extractKeywords v maxKeywords)"
    and "int (length (extractKeywords v maxKeywords)) \<le> maxKeywords"
    and "\<forall>k \<in> set (extractKeywords v maxKeywords).
           k \<in> set (split (preprocessText v)) \<and> length k > 3"
    and "sorted_wrt (\<lambda>a b. count_list (split (preprocessText v)) a
                         \<ge> count_list (split (preprocessText v)) b)
           (extractKeywords v maxKeywords)"
    and "\<forall>w \<in> set (split (preprocessText v)).
           length w > 3 \<and> w \<notin> set (extractKeywords v maxKeywords) \<longrightarrow>
             int (length (extractKeywords v maxKeywords)) = maxKeywords
             \<and> (\<forall>k \<in> set (extractKeywords v maxKeywords).
                   count_list (split (preprocessText v)) w
                     \<le> count_list (split (preprocessText v)) k)"
proof -
  let ?ws = "split (preprocessText v)"
  let ?fq = "wordFrequencies v"
  let ?sorted = "sortBy compareFreq (entries ?fq)"
  let ?key = "\<lambda>x :: string \<times> freq. count_list ?ws (fst x)"
  have inh: "\<forall>w \<in> set ?ws. inherited w = None"
    using assms(1,2) token_not_inherited by metis
  have fq: "(k, c) \<in> set ?fq \<longleftrightarrow> length k > 3 \<and> k \<in> set ?ws \<and> c = Count (count_list ?ws k)"
    for k c
    unfolding wordFrequencies_def by (rule wordFreq_entries(2)[OF inh])
  have dk: "distinct (map fst ?fq)"
    unfolding wordFrequencies_def by (rule wordFreq_entries(1)[OF inh])
  have mem: "x \<in> set ?sorted \<longleftrightarrow>
      length (fst x) > 3 \<and> fst x \<in> set ?ws \<and> snd x = Count (?key x)" for x
    using fq[of "fst x" "snd x"] by (simp add: set_sortBy set_entries)
  have inj: "inj_on fst (set ?sorted)"
    using dk by (simp add: set_sortBy set_entries distinct_map)
  have "distinct ?fq"
    using dk by (simp add: distinct_map)
  then have "distinct ?sorted"
    by (simp add: distinct_sortBy distinct_entries)
  then have ds: "distinct (map fst ?sorted)"
    using inj by (simp add: distinct_map)
  have cmp: "compareFreq a b > 0 \<longleftrightarrow> ?key a < ?key b"
    if "a \<in> set (entries ?fq)" "b \<in> set (entries ?fq)" for a b
    using that mem[of a] mem[of b] by (simp add: set_sortBy compareFreq_def)
  have so: "sorted_wrt (\<lambda>a b. ?key a \<ge> ?key b) ?sorted"
    by (rule sorted_sortBy) (rule cmp)
  have e: "extractKeywords v maxKeywords = map fst (take (nat maxKeywords) ?sorted)"
    using assms(3) by (simp add: extractKeywords_def slice_from_0)
  show "distinct (extractKeywords v maxKeywords)"
    unfolding e using ds by (simp add: take_map[symmetric] distinct_take)
  show "int (length (extractKeywords v maxKeywords)) \<le> maxKeywords"
    unfolding e using assms(3) by simp
  show "\<forall>k \<in> set (extractKeywords v maxKeywords). k \<in> set ?ws \<and> length k > 3"
    unfolding e using mem by (auto dest!: in_set_takeD)
  have "sorted_wrt (\<lambda>a b. ?key a \<ge> ?key b) (take (nat maxKeywords) ?sorted)"
    using so by (rule sorted_wrt_take)
  then show "sorted_wrt (\<lambda>a b. count_list ?ws a \<ge> count_list ?ws b)
      (extractKeywords v maxKeywords)"
    unfolding e by (simp add: sorted_wrt_map)
  show "\<forall>w \<in> set ?ws. length w > 3 \<and> w \<notin> set (extractKeywords v maxKeywords) \<longrightarrow>
             int (length (extractKeywords v maxKeywords)) = maxKeywords
             \<and> (\<forall>k \<in> set (extractKeywords v maxKeywords).
                   count_list ?ws w \<le> count_list ?ws k)"
  proof (intro ballI impI)
    fix w assume w: "w \<in> set ?ws" and "length w > 3 \<and> w \<notin> set (extractKeywords v maxKeywords)"
    then have l: "length w > 3" and out: "w \<notin> fst ` set (take (nat maxKeywords) ?sorted)"
      unfolding e by simp_all
    have "(w, Count (count_list ?ws w)) \<in> set ?sorted"
      using w l by (simp add: mem)
    then have "(w, Count (count_list ?ws w)) \<in> set (take (nat maxKeywords) ?sorted)
        \<or> (w, Count (count_list ?ws w)) \<in> set (drop (nat maxKeywords) ?sorted)"
      by (metis append_take_drop_id set_append Un_iff)
    then have d: "(w, Count (count_list ?ws w)) \<in> set (drop (nat maxKeywords) ?sorted)"
      using out by force
    then have "drop (nat maxKeywords) ?sorted \<noteq> []"
      by auto
    then have "nat maxKeywords < length ?sorted"
      by simp
    then have len: "int (length (extractKeywords v maxKeywords)) = maxKeywords"
      unfolding e using assms(3) by simp
    have "sorted_wrt (\<lambda>a b. ?key a \<ge> ?key b)
        (take (nat maxKeywords) ?sorted @ drop (nat maxKeywords) ?sorted)"
      using so by simp
    then have "\<forall>a \<in> set (take (nat maxKeywords) ?sorted).
        \<forall>b \<in> set (drop (nat maxKeywords) ?sorted). ?key a \<ge> ?key b"
      unfolding sorted_wrt_append by blast
    then have "\<forall>a \<in> set (take (nat maxKeywords) ?sorted). count_list ?ws w \<le> ?key a"
      using d by force
    then show "int (length (extractKeywords v maxKeywords)) = maxKeywords
             \<and> (\<forall>k \<in> set (extractKeywords v maxKeywords). count_list ?ws w \<le> count_list ?ws k)"
      using len unfolding e by auto
  qed
qed

end
